theory Spec2Isabelle
  imports Main "HOL-Library.Word"
begin

section \<open>JSON-like values and the Python primitives the traversal uses\<close>

text \<open>
  Both modules walk values that come out of a JSON parser: \<^verbatim>\<open>None\<close>, booleans,
  integers, floats, strings, lists and dicts with string keys. A float is kept as its
  64-bit pattern; the traversal never looks inside a scalar. A dict is an association
  list in insertion order. A Python \<^verbatim>\<open>str\<close> is a sequence of code points; the
  strings of this model are those over the code points U+0000 to U+00FF, a \<open>char\<close>
  being one code point, so that \<open>[CHR 0xB2]\<close> is the one-character string SUPERSCRIPT
  TWO, not a byte of an encoding.
\<close>

datatype json =
    JNull
  | JBool bool
  | JInt int
  | JFloat "64 word"
  | JStr string
  | JList "json list"
  | JDict "(string \<times> json) list"

datatype py_error = KeyError | IndexError | TypeError | ValueError

fun isinstance_list :: "json \<Rightarrow> bool" where
  "isinstance_list (JList xs) = True"
| "isinstance_list v = False"

fun isinstance_dict :: "json \<Rightarrow> bool" where
  "isinstance_dict (JDict d) = True"
| "isinstance_dict v = False"

fun the_list :: "json \<Rightarrow> json list" where
  "the_list (JList xs) = xs"
| "the_list v = []"

fun the_dict :: "json \<Rightarrow> (string \<times> json) list" where
  "the_dict (JDict d) = d"
| "the_dict v = []"

text \<open>
  \<^verbatim>\<open>str.isdigit()\<close>: true when the string is not empty and every character has the
  Unicode property Numeric_Type=Decimal or Numeric_Type=Digit. Up to U+00FF the decimal
  characters are \<^verbatim>\<open>0\<close> to \<^verbatim>\<open>9\<close>, and the further digit characters are the
  superscripts U+00B2, U+00B3 and U+00B9.
\<close>

definition isdecimal_char :: "char \<Rightarrow> bool" where
  "isdecimal_char c = (c \<in> set ''0123456789'')"

definition isdigit_char :: "char \<Rightarrow> bool" where
  "isdigit_char c = (isdecimal_char c \<or> c \<in> {CHR 0xB2, CHR 0xB3, CHR 0xB9})"

definition isdigit :: "string \<Rightarrow> bool" where
  "isdigit s = (s \<noteq> [] \<and> list_all isdigit_char s)"

text \<open>
  \<^verbatim>\<open>int(key)\<close> at its only call site, where \<^verbatim>\<open>key.isdigit()\<close> holds, so that
  the string has no sign, blank or underscore: it is read in base ten when every
  character is a decimal character, and \<^verbatim>\<open>ValueError\<close> is raised otherwise. The
  first argument is the interpreter's limit on the length of a converted string
  (\<^verbatim>\<open>sys.get_int_max_str_digits()\<close>: 4300 by default where the limit exists, 0 when
  it is switched off or the interpreter has none); a longer string raises
  \<^verbatim>\<open>ValueError\<close> too. The result is a Python integer, unbounded.
\<close>

definition digit_value :: "char \<Rightarrow> int" where
  "digit_value c = int (of_char c) - 48"

definition py_int :: "nat \<Rightarrow> string \<Rightarrow> py_error + int" where
  "py_int max_str_digits s =
     (if s = [] \<or> \<not> list_all isdecimal_char s then Inl ValueError
      else if 0 < max_str_digits \<and> max_str_digits < length s then Inl ValueError
      else Inr (foldl (\<lambda>a c. 10 * a + digit_value c) 0 s))"

text \<open>
  \<^verbatim>\<open>value[i]\<close> on a list of length \<open>n\<close>: the element at \<open>i\<close> for an index from 0
  to \<open>n - 1\<close>, the element at \<open>n + i\<close> for an index from \<open>- n\<close> to \<open>- 1\<close>, and
  \<^verbatim>\<open>IndexError\<close> for any other index.
\<close>

definition list_getitem :: "'a list \<Rightarrow> int \<Rightarrow> py_error + 'a" where
  "list_getitem xs i =
     (if 0 \<le> i \<and> i < int (length xs) then Inr (xs ! nat i)
      else if i < 0 \<and> - int (length xs) \<le> i then Inr (xs ! nat (int (length xs) + i))
      else Inl IndexError)"

text \<open>
  \<^verbatim>\<open>d.get(k, default)\<close> on a dict; \<^verbatim>\<open>d.get(k)\<close> is the call with the default
  \<^verbatim>\<open>None\<close>.
\<close>

definition dict_get :: "(string \<times> 'a) list \<Rightarrow> string \<Rightarrow> 'a \<Rightarrow> 'a" where
  "dict_get d k dflt = (case map_of d k of None \<Rightarrow> dflt | Some v \<Rightarrow> v)"

text \<open>
  \<^verbatim>\<open>d[k] = v\<close> on a dict: an existing key keeps its position and takes the new
  value, a new key goes to the end.
\<close>

fun dict_setitem :: "(string \<times> json) list \<Rightarrow> string \<Rightarrow> json \<Rightarrow> (string \<times> json) list" where
  "dict_setitem [] k v = [(k, v)]"
| "dict_setitem ((k', v') # d) k v =
     (if k' = k then (k, v) # d else (k', v') # dict_setitem d k v)"

text \<open>
  \<^verbatim>\<open>key_path.split('.')\<close>: the pieces between the dots, empty pieces included;
  the result is never the empty list.
\<close>

fun str_split :: "char \<Rightarrow> string \<Rightarrow> string list" where
  "str_split sep [] = [[]]"
| "str_split sep (c # cs) =
     (if c = sep then [] # str_split sep cs
      else (case str_split sep cs of
              [] \<Rightarrow> [[c]]
            | w # ws \<Rightarrow> (c # w) # ws))"

section \<open>\<^verbatim>\<open>preprocess_to_dataframe\<close> (get\_google\_search\_result.py)\<close>

text \<open>
  The body of the innermost loop, lines 169 to 176, inside the \<^verbatim>\<open>try\<close>: it either
  moves the cursor \<^verbatim>\<open>value\<close> and goes on to the next key, or sets it to
  \<^verbatim>\<open>None\<close> and breaks, or raises.
\<close>

datatype 'a flow = Next 'a | Break 'a


definition try_body :: "nat \<Rightarrow> json \<Rightarrow> string \<Rightarrow> py_error + json flow" where
  "try_body lim val key =
     (if isdigit key \<and> isinstance_list val then
        (case py_int lim key of
           Inl e \<Rightarrow> Inl e
         | Inr i \<Rightarrow>
             (case list_getitem (the_list val) i of
                Inl e \<Rightarrow> Inl e
              | Inr v \<Rightarrow> Inr (Next v)))
      else if isinstance_dict val then Inr (Next (dict_get (the_dict val) key JNull))
      else Inr (Break JNull))"

text \<open>
  Lines 167 to 179: \<^verbatim>\<open>except (KeyError, IndexError, TypeError)\<close> turns these three
  into \<^verbatim>\<open>value = None; break\<close>; any other exception leaves the function.
\<close>

definition handled :: "py_error \<Rightarrow> bool" where
  "handled e = (e = KeyError \<or> e = IndexError \<or> e = TypeError)"

definition loop_body :: "nat \<Rightarrow> json \<Rightarrow> string \<Rightarrow> py_error + json flow" where
  "loop_body lim val key =
     (case try_body lim val key of
        Inl e \<Rightarrow> if handled e then Inr (Break JNull) else Inl e
      | Inr f \<Rightarrow> Inr f)"

text \<open>Line 166, \<^verbatim>\<open>for key in keys\<close>, from the cursor \<open>val\<close>.\<close>

fun for_keys :: "nat \<Rightarrow> json \<Rightarrow> string list \<Rightarrow> py_error + json" where
  "for_keys lim val [] = Inr val"
| "for_keys lim val (key # keys) =
     (case loop_body lim val key of
        Inl e \<Rightarrow> Inl e
      | Inr (Break v) \<Rightarrow> Inr v
      | Inr (Next v) \<Rightarrow> for_keys lim v keys)"


text \<open>
  Lines 163 to 179 for one item and one key path: the value that line 180 stores. This
  is the operation the specification calls \<open>extract\<close>.
\<close>

definition extract_key_path :: "nat \<Rightarrow> json \<Rightarrow> string \<Rightarrow> py_error + json" where
  "extract_key_path lim item key_path = for_keys lim item (str_split (CHR ''.'') key_path)"

text \<open>
  Lines 160 to 180, the loop over \<^verbatim>\<open>keys_to_extract\<close> that fills
  \<^verbatim>\<open>extracted_row\<close>, and lines 157 to 181, the loop over the items that fills
  \<^verbatim>\<open>processed_data\<close>. The result modelled is \<^verbatim>\<open>processed_data\<close>, the list of
  rows handed to \<^verbatim>\<open>pd.DataFrame\<close>; the data frame itself is not modelled.
\<close>

type_synonym row = "(string \<times> json) list"

fun for_key_paths :: "nat \<Rightarrow> json \<Rightarrow> row \<Rightarrow> string list \<Rightarrow> py_error + row" where
  "for_key_paths lim item extracted_row [] = Inr extracted_row"
| "for_key_paths lim item extracted_row (key_path # key_paths) =
     (case extract_key_path lim item key_path of
        Inl e \<Rightarrow> Inl e
      | Inr v \<Rightarrow> for_key_paths lim item (dict_setitem extracted_row key_path v) key_paths)"

definition extract_row :: "nat \<Rightarrow> json \<Rightarrow> string list \<Rightarrow> py_error + row" where
  "extract_row lim item keys_to_extract = for_key_paths lim item [] keys_to_extract"

fun for_items :: "nat \<Rightarrow> row list \<Rightarrow> json list \<Rightarrow> string list \<Rightarrow> py_error + row list" where
  "for_items lim processed_data [] keys_to_extract = Inr processed_data"
| "for_items lim processed_data (item # items) keys_to_extract =
     (case extract_row lim item keys_to_extract of
        Inl e \<Rightarrow> Inl e
      | Inr extracted_row \<Rightarrow>
          for_items lim (processed_data @ [extracted_row]) items keys_to_extract)"

definition preprocess_to_dataframe :: "nat \<Rightarrow> json list \<Rightarrow> string list \<Rightarrow> py_error + row list" where
  "preprocess_to_dataframe lim search_results keys_to_extract =
     for_items lim [] search_results keys_to_extract"

section \<open>\<^verbatim>\<open>_get_value_safely\<close> (get\_gbiz\_info.py)\<close>

text \<open>
  Lines 34 to 39. The keys are strings, as at the call site in \<^verbatim>\<open>fetch_data\<close>.
\<close>

fun get_value_safely :: "json \<Rightarrow> string list \<Rightarrow> json" where
  "get_value_safely data [] = data"
| "get_value_safely data (key # keys) =
     (if isinstance_dict data then get_value_safely (dict_get (the_dict data) key JNull) keys
      else JNull)"


section \<open>The specification's resolution, with absence kept apart from null\<close>

text \<open>
  The definitions of this section follow the words of the specification (section 4.1,
  operation \<open>extract\<close>), not the code: a cursor is moved segment by segment, the result
  is \<open>Some v\<close> for a resolved value, \<^verbatim>\<open>null\<close> included, and \<open>None\<close> for the
  absence marker. A segment is an index when it is a non-empty string of the decimal
  digits \<^verbatim>\<open>0\<close> to \<^verbatim>\<open>9\<close>.
\<close>

definition spec_is_index :: "string \<Rightarrow> bool" where
  "spec_is_index seg = (seg \<noteq> [] \<and> list_all isdecimal_char seg)"

definition spec_index :: "string \<Rightarrow> nat" where
  "spec_index seg = nat (foldl (\<lambda>a c. 10 * a + digit_value c) 0 seg)"

definition spec_step :: "json \<Rightarrow> string \<Rightarrow> json option" where
  "spec_step cursor seg =
     (if spec_is_index seg \<and> isinstance_list cursor then
        (if spec_index seg < length (the_list cursor)
         then Some (the_list cursor ! spec_index seg) else None)
      else if isinstance_dict cursor then map_of (the_dict cursor) seg
      else None)"

fun spec_resolve :: "json \<Rightarrow> string list \<Rightarrow> json option" where
  "spec_resolve cursor [] = Some cursor"
| "spec_resolve cursor (seg # segs) =
     (case spec_step cursor seg of None \<Rightarrow> None | Some c \<Rightarrow> spec_resolve c segs)"

definition spec_extract :: "json \<Rightarrow> string \<Rightarrow> json option" where
  "spec_extract v path = spec_resolve v (str_split (CHR ''.'') path)"

text \<open>
  Two notions used to compare the code with the specification: a key that
  \<^verbatim>\<open>isdigit\<close> accepts and \<^verbatim>\<open>int\<close> rejects, and the reading of the
  specification's result in which the absence marker is \<^verbatim>\<open>None\<close>.
\<close>

definition int_rejects :: "nat \<Rightarrow> string \<Rightarrow> bool" where
  "int_rejects lim key = (isdigit key \<and> py_int lim key = Inl ValueError)"

definition or_null :: "json option \<Rightarrow> json" where
  "or_null r = (case r of None \<Rightarrow> JNull | Some v \<Rightarrow> v)"

section \<open>The traversal over a store of objects\<close>

text \<open>
  The same lines 163 to 179 with the objects made explicit: lists and dicts live in a
  store and are reached through references, scalars and \<^verbatim>\<open>None\<close> are values. Every
  function takes the store and returns it with its result, so that a write to an object
  would show. \<open>repr st r v\<close> says that the reference \<open>r\<close> stands for the JSON-like
  value \<open>v\<close> in the store \<open>st\<close>: a scalar for itself, a list object for the list of
  what its elements stand for, a dict object likewise, key by key.
\<close>

datatype ref = RNone | RBool bool | RInt int | RFloat "64 word" | RStr string | RObj nat

datatype obj = OList "ref list" | ODict "(string \<times> ref) list"

type_synonym store = "nat \<Rightarrow> obj option"

definition isinstance_list_st :: "store \<Rightarrow> ref \<Rightarrow> bool" where
  "isinstance_list_st st r =
     (case r of RObj a \<Rightarrow> (case st a of Some (OList rs) \<Rightarrow> True | _ \<Rightarrow> False) | _ \<Rightarrow> False)"

definition isinstance_dict_st :: "store \<Rightarrow> ref \<Rightarrow> bool" where
  "isinstance_dict_st st r =
     (case r of RObj a \<Rightarrow> (case st a of Some (ODict d) \<Rightarrow> True | _ \<Rightarrow> False) | _ \<Rightarrow> False)"

definition the_list_st :: "store \<Rightarrow> ref \<Rightarrow> ref list" where
  "the_list_st st r =
     (case r of RObj a \<Rightarrow> (case st a of Some (OList rs) \<Rightarrow> rs | _ \<Rightarrow> []) | _ \<Rightarrow> [])"

definition the_dict_st :: "store \<Rightarrow> ref \<Rightarrow> (string \<times> ref) list" where
  "the_dict_st st r =
     (case r of RObj a \<Rightarrow> (case st a of Some (ODict d) \<Rightarrow> d | _ \<Rightarrow> []) | _ \<Rightarrow> [])"

definition try_body_st :: "nat \<Rightarrow> ref \<Rightarrow> string \<Rightarrow> store \<Rightarrow> (py_error + ref flow) \<times> store" where
  "try_body_st lim val key st =
     (if isdigit key \<and> isinstance_list_st st val then
        (case py_int lim key of
           Inl e \<Rightarrow> (Inl e, st)
         | Inr i \<Rightarrow>
             (case list_getitem (the_list_st st val) i of
                Inl e \<Rightarrow> (Inl e, st)
              | Inr r \<Rightarrow> (Inr (Next r), st)))
      else if isinstance_dict_st st val then
        (Inr (Next (dict_get (the_dict_st st val) key RNone)), st)
      else (Inr (Break RNone), st))"

definition loop_body_st :: "nat \<Rightarrow> ref \<Rightarrow> string \<Rightarrow> store \<Rightarrow> (py_error + ref flow) \<times> store" where
  "loop_body_st lim val key st =
     (case try_body_st lim val key st of
        (Inl e, st') \<Rightarrow> if handled e then (Inr (Break RNone), st') else (Inl e, st')
      | (Inr f, st') \<Rightarrow> (Inr f, st'))"

fun for_keys_st :: "nat \<Rightarrow> ref \<Rightarrow> string list \<Rightarrow> store \<Rightarrow> (py_error + ref) \<times> store" where
  "for_keys_st lim val [] st = (Inr val, st)"
| "for_keys_st lim val (key # keys) st =
     (case loop_body_st lim val key st of
        (Inl e, st') \<Rightarrow> (Inl e, st')
      | (Inr (Break r), st') \<Rightarrow> (Inr r, st')
      | (Inr (Next r), st') \<Rightarrow> for_keys_st lim r keys st')"

definition extract_key_path_st :: "nat \<Rightarrow> ref \<Rightarrow> string \<Rightarrow> store \<Rightarrow> (py_error + ref) \<times> store" where
  "extract_key_path_st lim item key_path st =
     for_keys_st lim item (str_split (CHR ''.'') key_path) st"

fun repr :: "store \<Rightarrow> ref \<Rightarrow> json \<Rightarrow> bool" where
  "repr st r JNull = (r = RNone)"
| "repr st r (JBool b) = (r = RBool b)"
| "repr st r (JInt i) = (r = RInt i)"
| "repr st r (JFloat w) = (r = RFloat w)"
| "repr st r (JStr s) = (r = RStr s)"
| "repr st r (JList vs) =
     (case r of
        RObj a \<Rightarrow> (case st a of Some (OList rs) \<Rightarrow> list_all2 (repr st) rs vs | _ \<Rightarrow> False)
      | _ \<Rightarrow> False)"
| "repr st r (JDict d) =
     (case r of
        RObj a \<Rightarrow>
          (case st a of
             Some (ODict kvs) \<Rightarrow>
               list_all2 (\<lambda>kr kv. fst kr = fst kv \<and> repr st (snd kr) (snd kv)) kvs d
           | _ \<Rightarrow> False)
      | _ \<Rightarrow> False)"

section \<open>Facts about the primitives and the loop body\<close>

lemma isdecimal_isdigit: "isdecimal_char c \<Longrightarrow> isdigit_char c"
  by (simp add: isdigit_char_def)

lemma digit_value_nonneg: "isdecimal_char c \<Longrightarrow> 0 \<le> digit_value c"
  by (auto simp: isdecimal_char_def digit_value_def)

lemma foldl_digits_nonneg:
  "list_all isdecimal_char s \<Longrightarrow> 0 \<le> a \<Longrightarrow> 0 \<le> foldl (\<lambda>a c. 10 * a + digit_value c) a s"
proof (induction s arbitrary: a)
  case Nil
  then show ?case by simp
next
  case (Cons c s)
  from Cons.prems have "0 \<le> 10 * a + digit_value c"
    using digit_value_nonneg [of c] by simp
  with Cons show ?case by simp
qed

lemma py_int_nonneg: "py_int lim s = Inr i \<Longrightarrow> 0 \<le> i"
  using foldl_digits_nonneg [of s 0]
  by (auto simp: py_int_def split: if_splits)

lemma py_int_error: "py_int lim s = Inl e \<Longrightarrow> e = ValueError"
  by (auto simp: py_int_def split: if_splits)

lemma py_int_isdigit: "py_int lim s = Inr i \<Longrightarrow> isdigit s"
  by (auto simp: py_int_def isdigit_def list_all_iff isdecimal_isdigit split: if_splits)

lemma list_getitem_nonneg:
  "0 \<le> i \<Longrightarrow> list_getitem xs i = (if nat i < length xs then Inr (xs ! nat i) else Inl IndexError)"
  by (auto simp: list_getitem_def)

lemma loop_body_dict: "loop_body lim (JDict d) key = Inr (Next (dict_get d key JNull))"
  by (simp add: loop_body_def try_body_def)

lemma loop_body_other:
  "\<not> isinstance_list v \<Longrightarrow> \<not> isinstance_dict v \<Longrightarrow> loop_body lim v key = Inr (Break JNull)"
  by (simp add: loop_body_def try_body_def)

lemma loop_body_list_key: "\<not> isdigit key \<Longrightarrow> loop_body lim (JList xs) key = Inr (Break JNull)"
  by (simp add: loop_body_def try_body_def)

lemma loop_body_list_index:
  "isdigit key \<Longrightarrow> py_int lim key = Inr i \<Longrightarrow>
   loop_body lim (JList xs) key =
     (if nat i < length xs then Inr (Next (xs ! nat i)) else Inr (Break JNull))"
  using py_int_nonneg [of lim key i]
  by (simp add: loop_body_def try_body_def list_getitem_nonneg handled_def)

lemma loop_body_list_reject:
  "isdigit key \<Longrightarrow> py_int lim key = Inl e \<Longrightarrow> loop_body lim (JList xs) key = Inl ValueError"
  using py_int_error [of lim key e]
  by (simp add: loop_body_def try_body_def handled_def)

lemma for_keys_null: "for_keys lim JNull keys = Inr JNull"
  by (cases keys) (simp_all add: loop_body_other)

lemma get_value_safely_null: "get_value_safely JNull keys = JNull"
  by (cases keys) simp_all

lemmas eval_defs = extract_key_path_def loop_body_def try_body_def isdigit_def isdigit_char_def
  isdecimal_char_def py_int_def list_getitem_def dict_get_def digit_value_def handled_def

section \<open>The code against the specification's resolution\<close>

lemma spec_is_index_isdigit: "spec_is_index seg \<Longrightarrow> isdigit seg"
  by (auto simp: spec_is_index_def isdigit_def list_all_iff isdecimal_isdigit)

lemma py_int_spec_index:
  "py_int lim key = Inr i \<Longrightarrow> spec_is_index key \<and> spec_index key = nat i"
  by (auto simp: py_int_def spec_is_index_def spec_index_def split: if_splits)

lemma not_rejected_index:
  "\<not> int_rejects lim key \<Longrightarrow> isdigit key \<Longrightarrow> \<exists>i. py_int lim key = Inr i"
  using py_int_error [of lim key]
  by (cases "py_int lim key") (auto simp: int_rejects_def)

lemma loop_body_refines:
  assumes "\<not> int_rejects lim key"
  shows "loop_body lim v key =
           Inr (case spec_step v key of None \<Rightarrow> (if isinstance_dict v then Next JNull else Break JNull)
                | Some c \<Rightarrow> Next c)"
proof (cases v)
  case (JList xs)
  show ?thesis
  proof (cases "isdigit key")
    case True
    then obtain i where i: "py_int lim key = Inr i"
      using assms not_rejected_index by blast
    from py_int_spec_index [OF i] show ?thesis
      by (simp add: JList loop_body_list_index [OF True i] spec_step_def)
  next
    case False
    then have "\<not> spec_is_index key" using spec_is_index_isdigit by blast
    with False show ?thesis by (simp add: JList loop_body_list_key spec_step_def)
  qed
next
  case (JDict d)
  then show ?thesis
    by (simp add: loop_body_dict spec_step_def dict_get_def split: option.splits)
qed (simp_all add: loop_body_other spec_step_def)

lemma for_keys_refines:
  "\<not> list_ex (int_rejects lim) keys \<Longrightarrow> for_keys lim v keys = Inr (or_null (spec_resolve v keys))"
proof (induction keys arbitrary: v)
  case Nil
  show ?case by (simp add: or_null_def)
next
  case (Cons key keys)
  then have key: "\<not> int_rejects lim key" and keys: "\<not> list_ex (int_rejects lim) keys"
    by simp_all
  show ?case
  proof (cases "spec_step v key")
    case None
    then show ?thesis
      by (simp add: loop_body_refines [OF key] for_keys_null or_null_def)
  next
    case (Some c)
    then show ?thesis
      by (simp add: loop_body_refines [OF key] Cons.IH [OF keys])
  qed
qed

section \<open>The store: reads only, and results that depend on the value alone\<close>

lemma map_of_rel:
  "list_all2 (rel_prod (=) R) kvs d \<Longrightarrow> rel_option R (map_of kvs k) (map_of d k)"
  by (induction kvs d rule: list_all2_induct) auto

lemma dict_get_rel:
  "list_all2 (rel_prod (=) R) kvs d \<Longrightarrow> R x y \<Longrightarrow> R (dict_get kvs k x) (dict_get d k y)"
  using map_of_rel [of R kvs d k]
  by (auto simp: dict_get_def elim: option.rel_cases)

lemma list_getitem_rel:
  "list_all2 R rs vs \<Longrightarrow> rel_sum (=) R (list_getitem rs i) (list_getitem vs i)"
  by (auto simp: list_getitem_def list_all2_lengthD list_all2_nthD)

lemma repr_list:
  "repr st r (JList vs) \<Longrightarrow>
   \<exists>a rs. r = RObj a \<and> st a = Some (OList rs) \<and> list_all2 (repr st) rs vs"
  by (auto split: ref.splits option.splits obj.splits)

lemma repr_dict:
  assumes "repr st r (JDict d)"
  shows "\<exists>a kvs. r = RObj a \<and> st a = Some (ODict kvs) \<and> list_all2 (rel_prod (=) (repr st)) kvs d"
proof -
  have eq: "rel_prod (=) (repr st) = (\<lambda>kr kv. fst kr = fst kv \<and> repr st (snd kr) (snd kv))"
    by (simp add: fun_eq_iff rel_prod_sel)
  from assms show ?thesis
    unfolding eq by (auto split: ref.splits option.splits obj.splits)
qed

lemma try_body_st_sim:
  assumes "repr st r v"
  shows "\<exists>res. try_body_st lim r key st = (res, st)
           \<and> rel_sum (=) (rel_flow (repr st)) res (try_body lim v key)"
proof (cases v)
  case (JList vs)
  with assms obtain a rs where r: "r = RObj a" "st a = Some (OList rs)"
    and rs: "list_all2 (repr st) rs vs"
    using repr_list by blast
  note defs = try_body_st_def try_body_def isinstance_list_st_def isinstance_dict_st_def
    the_list_st_def
  show ?thesis
  proof (cases "isdigit key")
    case True
    show ?thesis
    proof (cases "py_int lim key")
      case (Inl e)
      with True JList r show ?thesis by (simp add: defs)
    next
      case (Inr i)
      have "rel_sum (=) (repr st) (list_getitem rs i) (list_getitem vs i)"
        using rs by (rule list_getitem_rel)
      with True Inr JList r show ?thesis
        by (cases "list_getitem rs i"; cases "list_getitem vs i") (simp_all add: defs)
    qed
  next
    case False
    with JList r show ?thesis by (simp add: defs)
  qed
next
  case (JDict d)
  with assms obtain a kvs where r: "r = RObj a" "st a = Some (ODict kvs)"
    and kvs: "list_all2 (rel_prod (=) (repr st)) kvs d"
    using repr_dict by blast
  have "repr st (dict_get kvs key RNone) (dict_get d key JNull)"
    using kvs by (rule dict_get_rel) simp
  with JDict r show ?thesis
    by (simp add: try_body_st_def try_body_def isinstance_list_st_def isinstance_dict_st_def
        the_dict_st_def)
qed (use assms in \<open>simp_all add: try_body_st_def try_body_def isinstance_list_st_def
      isinstance_dict_st_def\<close>)

lemma loop_body_st_sim:
  assumes "repr st r v"
  shows "\<exists>res. loop_body_st lim r key st = (res, st)
           \<and> rel_sum (=) (rel_flow (repr st)) res (loop_body lim v key)"
proof -
  from try_body_st_sim [OF assms, of lim key] obtain res where
    res: "try_body_st lim r key st = (res, st)"
      "rel_sum (=) (rel_flow (repr st)) res (try_body lim v key)"
    by blast
  from res(2) show ?thesis
    by (cases res; cases "try_body lim v key")
      (simp_all add: loop_body_st_def loop_body_def res(1))
qed

lemma for_keys_st_sim:
  "repr st r v \<Longrightarrow>
   \<exists>res. for_keys_st lim r keys st = (res, st) \<and> rel_sum (=) (repr st) res (for_keys lim v keys)"
proof (induction keys arbitrary: r v)
  case Nil
  then show ?case by simp
next
  case (Cons key keys)
  from loop_body_st_sim [OF Cons.prems, of lim key] obtain res where
    res: "loop_body_st lim r key st = (res, st)"
      "rel_sum (=) (rel_flow (repr st)) res (loop_body lim v key)"
    by blast
  show ?case
  proof (cases res)
    case (Inl e)
    with res show ?thesis by (cases "loop_body lim v key") simp_all
  next
    case (Inr f)
    with res(2) obtain g where g: "loop_body lim v key = Inr g" "rel_flow (repr st) f g"
      by (cases "loop_body lim v key") simp_all
    from g(2) show ?thesis
    proof cases
      case (Next r' v')
      with Inr g(1) res(1) Cons.IH [OF Next(3)] show ?thesis by simp
    next
      case (Break r' v')
      with Inr g(1) res(1) show ?thesis by simp
    qed
  qed
qed

section \<open>A key that fails, and the rows\<close>







lemma dict_setitem_fresh: "k \<notin> fst ` set d \<Longrightarrow> dict_setitem d k v = d @ [(k, v)]"
  by (induction d) auto

lemma for_key_paths_shape:
  assumes "\<not> list_ex (\<lambda>p. list_ex (int_rejects lim) (str_split (CHR ''.'') p)) paths"
    and "distinct paths" and "set paths \<inter> fst ` set row = {}"
  shows "for_key_paths lim item row paths =
           Inr (row @ map (\<lambda>p. (p, or_null (spec_extract item p))) paths)"
  using assms
proof (induction paths arbitrary: row)
  case Nil
  show ?case by simp
next
  case (Cons p paths)
  from Cons.prems(1) have p: "\<not> list_ex (int_rejects lim) (str_split (CHR ''.'') p)"
    and ps: "\<not> list_ex (\<lambda>p. list_ex (int_rejects lim) (str_split (CHR ''.'') p)) paths"
    by simp_all
  have x: "extract_key_path lim item p = Inr (or_null (spec_extract item p))"
    using p by (simp add: extract_key_path_def spec_extract_def for_keys_refines)
  have fresh: "p \<notin> fst ` set row"
    using Cons.prems(3) by auto
  have "set paths \<inter> fst ` set (row @ [(p, or_null (spec_extract item p))]) = {}"
    using Cons.prems(2,3) by auto
  with Cons.IH [OF ps, of "row @ [(p, or_null (spec_extract item p))]"] Cons.prems(2)
  show ?case
    by (simp add: x dict_setitem_fresh [OF fresh])
qed

lemma extract_row_shape:
  assumes "distinct paths"
    and "\<not> list_ex (\<lambda>p. list_ex (int_rejects lim) (str_split (CHR ''.'') p)) paths"
  shows "extract_row lim item paths = Inr (map (\<lambda>p. (p, or_null (spec_extract item p))) paths)"
  using for_key_paths_shape [OF assms(2) assms(1), of "[]" item]
  by (simp add: extract_row_def)

section \<open>Null and absence\<close>

text \<open>
  C1, as the specification states it: for every value and every path that resolves to a
  terminal \<^verbatim>\<open>null\<close>, the result of \<open>extract\<close> can be told apart from the absence
  marker, which is a sentinel of its own. The code has no such sentinel: a missing key
  makes \<^verbatim>\<open>value.get(key)\<close> return \<^verbatim>\<open>None\<close>, and a break sets
  \<^verbatim>\<open>value = None\<close>. In the item \<^verbatim>\<open>{"a": None}\<close> the path \<^verbatim>\<open>a\<close> resolves to
  \<^verbatim>\<open>null\<close>, in the item \<^verbatim>\<open>{}\<close> it does not resolve, and the code returns the
  same value for both.
\<close>

theorem null_and_absent_coincide:
  "spec_extract (JDict [(''a'', JNull)]) ''a'' = Some JNull
   \<and> spec_extract (JDict []) ''a'' = None
   \<and> extract_key_path 4300 (JDict [(''a'', JNull)]) ''a'' = extract_key_path 4300 (JDict []) ''a''"
  by (simp add: spec_extract_def spec_step_def spec_is_index_def eval_defs)

text \<open>
  C1, amended: when no segment of the path is a key that \<^verbatim>\<open>isdigit\<close> accepts and
  \<^verbatim>\<open>int\<close> rejects, a path that resolves to a terminal \<^verbatim>\<open>null\<close> and a path that
  does not resolve both make the code return \<^verbatim>\<open>None\<close>: the absence marker is the
  null value itself.
\<close>

theorem absent_is_null:
  assumes "\<not> list_ex (int_rejects lim) (str_split (CHR ''.'') p)"
  shows "(spec_extract v p = Some JNull \<longrightarrow> extract_key_path lim v p = Inr JNull)
       \<and> (spec_extract v p = None \<longrightarrow> extract_key_path lim v p = Inr JNull)"
  using for_keys_refines [OF assms, of v]
  by (simp add: extract_key_path_def spec_extract_def or_null_def)

theorem absent_is_null_witness:
  "\<not> list_ex (int_rejects 4300) (str_split (CHR ''.'') ''a'')
   \<and> spec_extract (JDict [(''a'', JNull)]) ''a'' = Some JNull
   \<and> extract_key_path 4300 (JDict [(''a'', JNull)]) ''a'' = Inr JNull
   \<and> spec_extract (JDict []) ''a'' = None
   \<and> extract_key_path 4300 (JDict []) ''a'' = Inr JNull"
proof -
  have h: "\<not> list_ex (int_rejects 4300) (str_split (CHR ''.'') ''a'')"
    by (simp add: int_rejects_def isdigit_def isdigit_char_def isdecimal_char_def)
  have r: "spec_extract (JDict [(''a'', JNull)]) ''a'' = Some JNull"
    and a: "spec_extract (JDict []) ''a'' = None"
    by (simp_all add: spec_extract_def spec_step_def spec_is_index_def isdecimal_char_def)
  from absent_is_null [OF h, of "JDict [(''a'', JNull)]"] absent_is_null [OF h, of "JDict []"] h r a
  show ?thesis by blast
qed

section \<open>Exceptions that leave the traversal\<close>

text \<open>
  C2: \<open>extract\<close> never raises. The handler at line 177 catches \<^verbatim>\<open>KeyError\<close>,
  \<^verbatim>\<open>IndexError\<close> and \<^verbatim>\<open>TypeError\<close>, and the guard at line 169 asks
  \<^verbatim>\<open>key.isdigit()\<close> before \<^verbatim>\<open>int(key)\<close>. The guard lets the superscript digits
  through, \<^verbatim>\<open>int\<close> rejects them with \<^verbatim>\<open>ValueError\<close>, and the handler does not
  catch it: on the list \<^verbatim>\<open>[10]\<close> the one-character path U+00B2 leaves the function
  with \<^verbatim>\<open>ValueError\<close>.
\<close>

theorem superscript_digit_raises:
  "extract_key_path lim (JList [JInt 10]) [CHR 0xB2] = Inl ValueError"
  by (simp add: eval_defs)

text \<open>
  Where no key of the path is rejected by \<^verbatim>\<open>int\<close>, the traversal does return, and an
  index out of bounds gives \<^verbatim>\<open>None\<close>.
\<close>

lemma extract_key_path_returns:
  "\<not> list_ex (int_rejects lim) (str_split (CHR ''.'') p) \<Longrightarrow>
   extract_key_path lim v p = Inr (or_null (spec_extract v p))"
  by (simp add: extract_key_path_def spec_extract_def for_keys_refines)

section \<open>Which segments are indices\<close>

text \<open>
  C3. One segment, from each kind of cursor: on a dict every key, digits or not, is
  looked up with \<^verbatim>\<open>get\<close>; on a cursor that is neither a list nor a dict, and on a
  list with a key that is not \<^verbatim>\<open>isdigit\<close>, the lookup gives \<^verbatim>\<open>None\<close> and the loop
  breaks; only on a list is a key of decimal digits read as a zero-based index, which
  moves the cursor to that element when it is in bounds and gives \<^verbatim>\<open>None\<close> when it is
  not.
\<close>

theorem segment_precedence:
  "loop_body lim (JDict d) key = Inr (Next (dict_get d key JNull))
   \<and> (\<not> isinstance_list v \<and> \<not> isinstance_dict v \<longrightarrow> loop_body lim v key = Inr (Break JNull))
   \<and> (\<not> isdigit key \<longrightarrow> loop_body lim (JList xs) key = Inr (Break JNull))
   \<and> (py_int lim key = Inr i \<longrightarrow>
        loop_body lim (JList xs) key =
          (if nat i < length xs then Inr (Next (xs ! nat i)) else Inr (Break JNull)))"
  using loop_body_dict loop_body_other loop_body_list_key loop_body_list_index py_int_isdigit
  by blast

theorem segment_precedence_witness:
  "loop_body 4300 (JDict [(''0'', JStr ''zero'')]) ''0'' = Inr (Next (JStr ''zero''))
   \<and> loop_body 4300 (JStr ''s'') ''0'' = Inr (Break JNull)
   \<and> loop_body 4300 (JList [JInt 10, JInt 20]) ''x'' = Inr (Break JNull)
   \<and> py_int 4300 ''1'' = Inr 1
   \<and> loop_body 4300 (JList [JInt 10, JInt 20]) ''1'' = Inr (Next (JInt 20))"
proof -
  have i: "py_int 4300 ''1'' = Inr 1"
    by (simp add: py_int_def isdecimal_char_def digit_value_def)
  have k: "\<not> isdigit ''x''"
    by (simp add: isdigit_def isdigit_char_def isdecimal_char_def)
  have s: "\<not> isinstance_list (JStr ''s'') \<and> \<not> isinstance_dict (JStr ''s'')"
    by simp
  from segment_precedence [where lim = 4300 and key = "''0''" and v = "JStr ''s''"
      and d = "[(''0'', JStr ''zero'')]"]
    segment_precedence [where lim = 4300 and key = "''x''" and xs = "[JInt 10, JInt 20]"]
    segment_precedence [where lim = 4300 and key = "''1''" and xs = "[JInt 10, JInt 20]"
      and i = 1]
    i k s
  show ?thesis by (simp add: dict_get_def)
qed

text \<open>
  C4. On the item \<^verbatim>\<open>{"a": {"b": [10, 20, 30]}}\<close> the path \<^verbatim>\<open>a.b.1\<close> gives
  \<^verbatim>\<open>20\<close> and the path \<^verbatim>\<open>a.b.5\<close> gives the absence marker \<^verbatim>\<open>None\<close>.
\<close>

theorem index_in_and_out_of_bounds:
  "extract_key_path lim
     (JDict [(''a'', JDict [(''b'', JList [JInt 10, JInt 20, JInt 30])])]) ''a.b.1'' = Inr (JInt 20)
   \<and> extract_key_path lim
     (JDict [(''a'', JDict [(''b'', JList [JInt 10, JInt 20, JInt 30])])]) ''a.b.5'' = Inr JNull"
  by (auto simp: eval_defs)

section \<open>The first failing segment\<close>





section \<open>The rows of the table\<close>

text \<open>
  C6: one row for each item, one entry for each path, and no item makes the batch fail.
  The exception of C2 leaves \<^verbatim>\<open>preprocess_to_dataframe\<close> as well: with the two items
  \<^verbatim>\<open>{"x": 1}\<close> and \<^verbatim>\<open>{"x": [10]}\<close> and the path \<^verbatim>\<open>x.\<close> followed by U+00B2, the
  first item gives \<^verbatim>\<open>None\<close>, the second raises \<^verbatim>\<open>ValueError\<close>, and no table is
  returned.
\<close>

theorem one_item_fails_the_batch:
  "preprocess_to_dataframe lim
     [JDict [(''x'', JInt 1)], JDict [(''x'', JList [JInt 10])]] [[CHR ''x'', CHR ''.'', CHR 0xB2]]
   = Inl ValueError"
  by (simp add: preprocess_to_dataframe_def extract_row_def eval_defs)

text \<open>
  Where no key of any path is rejected by \<^verbatim>\<open>int\<close> and the paths are distinct, the
  rows are as C6 says: one for each item, in order, each with one entry for each path, in
  order, holding the resolved value or \<^verbatim>\<open>None\<close>.
\<close>

lemma table_shape:
  assumes "distinct paths"
    and "\<not> list_ex (\<lambda>p. list_ex (int_rejects lim) (str_split (CHR ''.'') p)) paths"
  shows "preprocess_to_dataframe lim items paths =
           Inr (map (\<lambda>item. map (\<lambda>p. (p, or_null (spec_extract item p))) paths) items)"
proof -
  have "for_items lim acc items paths =
          Inr (acc @ map (\<lambda>item. map (\<lambda>p. (p, or_null (spec_extract item p))) paths) items)"
    for acc
    by (induction items arbitrary: acc) (simp_all add: extract_row_shape [OF assms])
  from this [of "[]"] show ?thesis
    by (simp add: preprocess_to_dataframe_def)
qed

section \<open>Determinism and the input left as it was\<close>

text \<open>
  C7. In the store, the traversal returns the store it was given, so the item is not
  changed and a second call sees what the first saw; and its result stands for the value
  that the traversal of the JSON-like value gives. So two calls on references that stand
  for the same value, in any two stores and with the same path, raise the same exception
  or return references that stand for the same value: nothing but the value and the path
  (and the interpreter's limit \<open>lim\<close>) has a part in the outcome.
\<close>

theorem extract_deterministic_and_pure:
  assumes "repr st1 r1 v" and "repr st2 r2 v"
  shows "snd (extract_key_path_st lim r1 p st1) = st1
       \<and> fst (extract_key_path_st lim r1 p (snd (extract_key_path_st lim r1 p st1)))
           = fst (extract_key_path_st lim r1 p st1)
       \<and> rel_sum (=) (repr st1) (fst (extract_key_path_st lim r1 p st1)) (extract_key_path lim v p)
       \<and> rel_sum (=) (\<lambda>a b. \<exists>w. repr st1 a w \<and> repr st2 b w)
           (fst (extract_key_path_st lim r1 p st1)) (fst (extract_key_path_st lim r2 p st2))"
proof -
  let ?keys = "str_split (CHR ''.'') p"
  from for_keys_st_sim [OF assms(1), of lim ?keys] obtain res1 where
    res1: "for_keys_st lim r1 ?keys st1 = (res1, st1)"
      "rel_sum (=) (repr st1) res1 (for_keys lim v ?keys)"
    by blast
  from for_keys_st_sim [OF assms(2), of lim ?keys] obtain res2 where
    res2: "for_keys_st lim r2 ?keys st2 = (res2, st2)"
      "rel_sum (=) (repr st2) res2 (for_keys lim v ?keys)"
    by blast
  have "rel_sum (=) (\<lambda>a b. \<exists>w. repr st1 a w \<and> repr st2 b w) res1 res2"
    using res1(2) res2(2)
    by (cases res1; cases res2; cases "for_keys lim v ?keys") auto
  with res1 res2 show ?thesis
    by (simp add: extract_key_path_st_def extract_key_path_def)
qed

theorem extract_deterministic_and_pure_witness:
  "repr [2 \<mapsto> ODict [(''a'', RObj 3)], 3 \<mapsto> OList [RInt 10, RInt 20]] (RObj 2)
     (JDict [(''a'', JList [JInt 10, JInt 20])])
   \<and> repr [5 \<mapsto> OList [RInt 10, RInt 20], 7 \<mapsto> ODict [(''a'', RObj 5)], 9 \<mapsto> OList []] (RObj 7)
     (JDict [(''a'', JList [JInt 10, JInt 20])])
   \<and> snd (extract_key_path_st 4300 (RObj 2) ''a.1''
        [2 \<mapsto> ODict [(''a'', RObj 3)], 3 \<mapsto> OList [RInt 10, RInt 20]])
      = [2 \<mapsto> ODict [(''a'', RObj 3)], 3 \<mapsto> OList [RInt 10, RInt 20]]
   \<and> rel_sum (=)
        (\<lambda>a b. \<exists>w. repr [2 \<mapsto> ODict [(''a'', RObj 3)], 3 \<mapsto> OList [RInt 10, RInt 20]] a w
              \<and> repr [5 \<mapsto> OList [RInt 10, RInt 20], 7 \<mapsto> ODict [(''a'', RObj 5)], 9 \<mapsto> OList []] b w)
        (fst (extract_key_path_st 4300 (RObj 2) ''a.1''
           [2 \<mapsto> ODict [(''a'', RObj 3)], 3 \<mapsto> OList [RInt 10, RInt 20]]))
        (fst (extract_key_path_st 4300 (RObj 7) ''a.1''
           [5 \<mapsto> OList [RInt 10, RInt 20], 7 \<mapsto> ODict [(''a'', RObj 5)], 9 \<mapsto> OList []]))"
proof -
  let ?st1 = "[2 \<mapsto> ODict [(''a'', RObj 3)], 3 \<mapsto> OList [RInt 10, RInt 20]]"
  let ?st2 = "[5 \<mapsto> OList [RInt 10, RInt 20], 7 \<mapsto> ODict [(''a'', RObj 5)], 9 \<mapsto> OList []]"
  have r1: "repr ?st1 (RObj 2) (JDict [(''a'', JList [JInt 10, JInt 20])])"
    by simp
  have r2: "repr ?st2 (RObj 7) (JDict [(''a'', JList [JInt 10, JInt 20])])"
    by simp
  from extract_deterministic_and_pure [OF r1 r2, of 4300 "''a.1''"] r1 r2
  show ?thesis by blast
qed

section \<open>Segments that are not indices\<close>

text \<open>
  C8. The nested lookup helper with an empty list of keys is the identity: the loop body
  never runs and \<^verbatim>\<open>_get_value_safely(data, [])\<close> returns \<^verbatim>\<open>data\<close> itself.
\<close>

theorem get_value_safely_no_keys: "get_value_safely data [] = data"
  by simp

text \<open>
  C9. A key with a character that is not a digit for \<^verbatim>\<open>isdigit\<close>, such as the minus
  sign of \<^verbatim>\<open>-1\<close>, is never an index: on a list it gives \<^verbatim>\<open>None\<close>, whatever
  follows. And whenever a key does move the cursor from a list to one of its elements,
  the element is the one at the key's value counted from the front, which \<^verbatim>\<open>int\<close>
  returns as a number that is not negative; no key counts from the end.
\<close>

theorem no_negative_index:
  "(\<not> list_all isdigit_char key \<longrightarrow> for_keys lim (JList xs) (key # rest) = Inr JNull)
   \<and> (loop_body lim (JList xs) k = Inr (Next v) \<longrightarrow>
        (\<exists>n<length xs. py_int lim k = Inr (int n) \<and> v = xs ! n))"
proof (intro conjI impI)
  assume "\<not> list_all isdigit_char key"
  then have "\<not> isdigit key" by (simp add: isdigit_def)
  then show "for_keys lim (JList xs) (key # rest) = Inr JNull"
    by (simp add: loop_body_list_key)
next
  assume step: "loop_body lim (JList xs) k = Inr (Next v)"
  then have dig: "isdigit k"
    using loop_body_list_key [of k lim xs] by auto
  obtain i where i: "py_int lim k = Inr i"
    using step dig loop_body_list_reject [of k lim _ xs] by (cases "py_int lim k") auto
  from step have "nat i < length xs \<and> v = xs ! nat i"
    by (simp add: loop_body_list_index [OF dig i] split: if_splits)
  moreover have "int (nat i) = i"
    using py_int_nonneg [OF i] by simp
  ultimately show "\<exists>n<length xs. py_int lim k = Inr (int n) \<and> v = xs ! n"
    using i by metis
qed

theorem no_negative_index_witness:
  "\<not> list_all isdigit_char ''-1''
   \<and> for_keys 4300 (JList [JInt 10, JInt 20, JInt 30]) [''-1''] = Inr JNull
   \<and> loop_body 4300 (JList [JInt 10, JInt 20, JInt 30]) ''2'' = Inr (Next (JInt 30))
   \<and> (\<exists>n<length [JInt 10, JInt 20, JInt 30].
        py_int 4300 ''2'' = Inr (int n) \<and> JInt 30 = [JInt 10, JInt 20, JInt 30] ! n)"
proof -
  have m: "\<not> list_all isdigit_char ''-1''"
    by (simp add: isdigit_char_def isdecimal_char_def)
  have s: "loop_body 4300 (JList [JInt 10, JInt 20, JInt 30]) ''2'' = Inr (Next (JInt 30))"
    by (simp add: eval_defs)
  from no_negative_index [where key = "''-1''" and lim = 4300 and rest = "[]"
      and xs = "[JInt 10, JInt 20, JInt 30]" and k = "''2''" and v = "JInt 30"] m s
  show ?thesis by blast
qed

text \<open>
  C10. No path is checked before it is split. The empty path splits into one empty
  segment, and an empty segment, wherever it stands in a path, is a key like any other:
  it is never an index, on a dict it is looked up with \<^verbatim>\<open>get\<close>, so that the path
  \<^verbatim>\<open>""\<close> on \<^verbatim>\<open>{"": 1}\<close> gives 1 and the path \<^verbatim>\<open>a..b\<close> on
  \<^verbatim>\<open>{"a": {"": {"b": 2}}}\<close> gives 2, and on any other cursor it gives
  \<^verbatim>\<open>None\<close>; it never raises.
\<close>

theorem empty_segment_is_a_key:
  "str_split (CHR ''.'') [] = [[]]
   \<and> extract_key_path lim (JDict [([], JInt 1)]) [] = Inr (JInt 1)
   \<and> extract_key_path lim (JDict [(''a'', JDict [([], JDict [(''b'', JInt 2)])])]) ''a..b''
        = Inr (JInt 2)
   \<and> extract_key_path lim v [] =
        Inr (if isinstance_dict v then dict_get (the_dict v) [] JNull else JNull)
   \<and> for_keys lim v ([] # rest) =
        (if isinstance_dict v then for_keys lim (dict_get (the_dict v) [] JNull) rest else Inr JNull)"
  by (cases v) (simp_all add: extract_key_path_def loop_body_def try_body_def isdigit_def dict_get_def)

end
